theory Spec2Isabelle
  imports Main "HOL-Library.Word"
begin

unbundle bit_operations_syntax

section \<open>NDKarte: the display lifecycle of \<^verbatim>\<open>app/src/main/cpp/main.c\<close>\<close>

text \<open>
  The program is one C file: an \<^verbatim>\<open>AppState\<close> struct, the four static functions
  \<^verbatim>\<open>init_display\<close>, \<^verbatim>\<open>terminate_display\<close>, \<^verbatim>\<open>render_frame\<close>, \<^verbatim>\<open>handle_cmd\<close>, the input
  callback \<^verbatim>\<open>handle_input\<close> and the loop of \<^verbatim>\<open>android_main\<close>.

  Every function is embedded as a HOL function that takes the \<^verbatim>\<open>AppState\<close> and returns
  the updated one together with the list of calls it made into EGL, GLES, the looper
  and the Android log, in program order. What the outside world answers to a call
  (the handle \<^verbatim>\<open>eglGetDisplay\<close> returns, whether \<^verbatim>\<open>eglInitialize\<close> succeeds, what the
  looper delivers) is an argument of the embedding, so every path of the C code is a
  branch of the model.
\<close>

subsection \<open>Values\<close>

text \<open>
  \<^verbatim>\<open>int32_t\<close> is a 32-bit word. \<^verbatim>\<open>EGLDisplay\<close>, \<^verbatim>\<open>EGLSurface\<close>, \<^verbatim>\<open>EGLContext\<close>,
  \<^verbatim>\<open>EGLConfig\<close> and \<^verbatim>\<open>ANativeWindow*\<close> are opaque pointers: the program only stores
  them, hands them back to EGL and compares them with the null handle, so a handle is
  its address as a natural number and the null handles are address 0 (as \<^verbatim>\<open>EGL/egl.h\<close>
  defines \<^verbatim>\<open>EGL_NO_DISPLAY\<close>, \<^verbatim>\<open>EGL_NO_SURFACE\<close> and \<^verbatim>\<open>EGL_NO_CONTEXT\<close>).
\<close>

type_synonym int32 = "32 word"
type_synonym handle = nat

definition NULL :: handle where
  "NULL = 0"

definition EGL_NO_DISPLAY :: handle where
  "EGL_NO_DISPLAY = 0"

definition EGL_NO_SURFACE :: handle where
  "EGL_NO_SURFACE = 0"

definition EGL_NO_CONTEXT :: handle where
  "EGL_NO_CONTEXT = 0"

text \<open>The command codes of \<^verbatim>\<open>android_native_app_glue.h\<close> that \<^verbatim>\<open>handle_cmd\<close> switches on.\<close>

definition APP_CMD_INIT_WINDOW :: int32 where
  "APP_CMD_INIT_WINDOW = 1"

definition APP_CMD_TERM_WINDOW :: int32 where
  "APP_CMD_TERM_WINDOW = 2"

definition APP_CMD_GAINED_FOCUS :: int32 where
  "APP_CMD_GAINED_FOCUS = 6"

definition APP_CMD_LOST_FOCUS :: int32 where
  "APP_CMD_LOST_FOCUS = 7"

definition APP_CMD_RESUME :: int32 where
  "APP_CMD_RESUME = 11"

definition APP_CMD_PAUSE :: int32 where
  "APP_CMD_PAUSE = 13"

definition APP_CMD_DESTROY :: int32 where
  "APP_CMD_DESTROY = 15"

text \<open>The input constants of \<^verbatim>\<open>android/input.h\<close> that \<^verbatim>\<open>handle_input\<close> uses.\<close>

definition AINPUT_EVENT_TYPE_MOTION :: int32 where
  "AINPUT_EVENT_TYPE_MOTION = 2"

definition AMOTION_EVENT_ACTION_MASK :: int32 where
  "AMOTION_EVENT_ACTION_MASK = 0xff"

definition AMOTION_EVENT_ACTION_DOWN :: int32 where
  "AMOTION_EVENT_ACTION_DOWN = 0"

definition AMOTION_EVENT_ACTION_UP :: int32 where
  "AMOTION_EVENT_ACTION_UP = 1"

definition AMOTION_EVENT_ACTION_MOVE :: int32 where
  "AMOTION_EVENT_ACTION_MOVE = 2"

text \<open>The clear mask of \<^verbatim>\<open>GLES3/gl3.h\<close>.\<close>

definition GL_DEPTH_BUFFER_BIT :: int32 where
  "GL_DEPTH_BUFFER_BIT = 0x100"

definition GL_COLOR_BUFFER_BIT :: int32 where
  "GL_COLOR_BUFFER_BIT = 0x4000"

subsection \<open>The structs\<close>

text \<open>
  Of \<^verbatim>\<open>struct android_app\<close> the program reads two fields: \<^verbatim>\<open>window\<close> and
  \<^verbatim>\<open>destroyRequested\<close>. Both are written by the host only.
\<close>

record android_app =
  window :: handle
  destroyRequested :: int32

text \<open>
  \<^verbatim>\<open>AppState\<close>. Its first field, the back pointer \<^verbatim>\<open>app\<close>, is set once in
  \<^verbatim>\<open>android_main\<close> to the \<^verbatim>\<open>android_app\<close> the callbacks are called with, so
  \<^verbatim>\<open>state->app->window\<close> and \<^verbatim>\<open>app->window\<close> are the same cell; the embedding passes
  that \<^verbatim>\<open>android_app\<close> as an argument instead of storing a pointer to it.
\<close>

record AppState =
  display :: handle
  surface :: handle
  "context" :: handle
  width :: int32
  height :: int32
  initialized :: bool
  has_focus :: bool

subsection \<open>Calls into the environment\<close>

datatype egl_attribute = EGL_WIDTH | EGL_HEIGHT

datatype gl_name = GL_VENDOR | GL_RENDERER | GL_VERSION

text \<open>
  One constructor per external function the program calls, with the handle arguments
  of the call. The three log macros carry their format string. The float arguments of
  \<^verbatim>\<open>glClearColor\<close> are constants of the source and are left out.
\<close>

datatype call =
    LOGI string
  | LOGW string
  | LOGE string
  | eglGetDisplay
  | eglInitialize handle
  | eglChooseConfig handle
  | eglCreateWindowSurface handle handle handle
  | eglCreateContext handle handle
  | eglMakeCurrent handle handle handle handle
  | eglQuerySurface handle handle egl_attribute
  | eglDestroyContext handle handle
  | eglDestroySurface handle handle
  | eglTerminate handle
  | eglSwapBuffers handle handle
  | glGetString gl_name
  | glViewport int32 int32 int32 int32
  | glClearColor
  | glClear int32
  | ALooper_pollAll int

text \<open>
  What EGL answers during one run of \<^verbatim>\<open>init_display\<close>: the returned handles, the
  \<^verbatim>\<open>EGLBoolean\<close> results (only ever tested against zero), the chosen config with
  \<^verbatim>\<open>num_configs\<close>, and the two queried dimensions (\<open>None\<close> when \<^verbatim>\<open>eglQuerySurface\<close>
  fails and leaves its output cell alone).
\<close>

record egl_answers =
  got_display :: handle
  initialize_ok :: bool
  choose_config_ok :: bool
  config :: handle
  num_configs :: int32
  created_surface :: handle
  created_context :: handle
  make_current_ok :: bool
  queried_width :: "int32 option"
  queried_height :: "int32 option"

subsection \<open>\<^verbatim>\<open>init_display\<close>\<close>

definition init_display :: "android_app \<Rightarrow> egl_answers \<Rightarrow> AppState \<Rightarrow> bool \<times> AppState \<times> call list" where
  "init_display app egl state =
    (let s1 = state\<lparr>display := got_display egl\<rparr>;
         t1 = [eglGetDisplay]
     in if display s1 = EGL_NO_DISPLAY then
          (False, s1, t1 @ [LOGE ''Failed to get EGL display''])
     else let t2 = t1 @ [eglInitialize (display s1)]
     in if \<not> initialize_ok egl then
          (False, s1, t2 @ [LOGE ''Failed to initialize EGL''])
     else let t3 = t2 @ [eglChooseConfig (display s1)]
     in if \<not> choose_config_ok egl \<or> num_configs egl = 0 then
          (False, s1, t3 @ [LOGE ''Failed to choose EGL config''])
     else let s2 = s1\<lparr>surface := created_surface egl\<rparr>;
              t4 = t3 @ [eglCreateWindowSurface (display s1) (config egl) (window app)]
     in if surface s2 = EGL_NO_SURFACE then
          (False, s2, t4 @ [LOGE ''Failed to create EGL surface''])
     else let s3 = s2\<lparr>context := created_context egl\<rparr>;
              t5 = t4 @ [eglCreateContext (display s2) (config egl)]
     in if context s3 = EGL_NO_CONTEXT then
          (False, s3, t5 @ [LOGE ''Failed to create EGL context''])
     else let t6 = t5 @ [eglMakeCurrent (display s3) (surface s3) (surface s3) (context s3)]
     in if \<not> make_current_ok egl then
          (False, s3, t6 @ [LOGE ''Failed to make EGL context current''])
     else let s4 = (case queried_width egl of None \<Rightarrow> s3 | Some w \<Rightarrow> s3\<lparr>width := w\<rparr>);
              s5 = (case queried_height egl of None \<Rightarrow> s4 | Some h \<Rightarrow> s4\<lparr>height := h\<rparr>);
              t7 = t6 @
                [eglQuerySurface (display s3) (surface s3) EGL_WIDTH,
                 eglQuerySurface (display s4) (surface s4) EGL_HEIGHT,
                 LOGI ''Display initialized: %dx%d'',
                 glGetString GL_VENDOR, LOGI ''GL_VENDOR: %s'',
                 glGetString GL_RENDERER, LOGI ''GL_RENDERER: %s'',
                 glGetString GL_VERSION, LOGI ''GL_VERSION: %s'',
                 glViewport 0 0 (width s5) (height s5)]
     in (True, s5\<lparr>initialized := True\<rparr>, t7))"

subsection \<open>\<^verbatim>\<open>terminate_display\<close>\<close>

definition terminate_display :: "AppState \<Rightarrow> AppState \<times> call list" where
  "terminate_display state =
    (let t = (if display state \<noteq> EGL_NO_DISPLAY then
                [eglMakeCurrent (display state) EGL_NO_SURFACE EGL_NO_SURFACE EGL_NO_CONTEXT]
                @ (if context state \<noteq> EGL_NO_CONTEXT
                   then [eglDestroyContext (display state) (context state)] else [])
                @ (if surface state \<noteq> EGL_NO_SURFACE
                   then [eglDestroySurface (display state) (surface state)] else [])
                @ [eglTerminate (display state)]
              else [])
     in (state\<lparr>display := EGL_NO_DISPLAY, surface := EGL_NO_SURFACE,
               context := EGL_NO_CONTEXT, initialized := False\<rparr>,
         t @ [LOGI ''Display terminated'']))"

subsection \<open>\<^verbatim>\<open>render_frame\<close>\<close>

definition render_frame :: "AppState \<Rightarrow> AppState \<times> call list" where
  "render_frame state =
    (if \<not> initialized state then (state, [])
     else (state,
           [glClearColor, glClear (GL_COLOR_BUFFER_BIT OR GL_DEPTH_BUFFER_BIT),
            eglSwapBuffers (display state) (surface state)]))"

subsection \<open>\<^verbatim>\<open>handle_cmd\<close>\<close>

definition handle_cmd :: "android_app \<Rightarrow> egl_answers \<Rightarrow> AppState \<Rightarrow> int32 \<Rightarrow> AppState \<times> call list" where
  "handle_cmd app egl state cmd =
    (if cmd = APP_CMD_INIT_WINDOW then
       (if window app \<noteq> NULL
        then (case init_display app egl state of
                (ok, s, t) \<Rightarrow> (s, LOGI ''APP_CMD_INIT_WINDOW'' # t))
        else (state, [LOGI ''APP_CMD_INIT_WINDOW'']))
     else if cmd = APP_CMD_TERM_WINDOW then
       (case terminate_display state of (s, t) \<Rightarrow> (s, LOGI ''APP_CMD_TERM_WINDOW'' # t))
     else if cmd = APP_CMD_GAINED_FOCUS then
       (state\<lparr>has_focus := True\<rparr>, [LOGI ''APP_CMD_GAINED_FOCUS''])
     else if cmd = APP_CMD_LOST_FOCUS then
       (case render_frame (state\<lparr>has_focus := False\<rparr>) of
          (s, t) \<Rightarrow> (s, LOGI ''APP_CMD_LOST_FOCUS'' # t))
     else if cmd = APP_CMD_PAUSE then (state, [LOGI ''APP_CMD_PAUSE''])
     else if cmd = APP_CMD_RESUME then (state, [LOGI ''APP_CMD_RESUME''])
     else if cmd = APP_CMD_DESTROY then (state, [LOGI ''APP_CMD_DESTROY''])
     else (state, []))"

subsection \<open>\<^verbatim>\<open>handle_input\<close>\<close>

text \<open>
  Of an \<^verbatim>\<open>AInputEvent\<close> the handler reads the type and, for a motion event, the action
  and the coordinates of pointer 0. The coordinates only become arguments of a log
  line, so the event is its type and its action. The handler does not touch the
  \<^verbatim>\<open>AppState\<close>; it returns its \<^verbatim>\<open>int32_t\<close> result and the calls it made.
\<close>

record AInputEvent =
  event_type :: int32
  motion_action :: int32

definition handle_input :: "AInputEvent \<Rightarrow> int32 \<times> call list" where
  "handle_input event =
    (if event_type event = AINPUT_EVENT_TYPE_MOTION then
       (let action = motion_action event;
            masked = action AND AMOTION_EVENT_ACTION_MASK
        in (1,
            if masked = AMOTION_EVENT_ACTION_DOWN then [LOGI ''Touch DOWN at (%.1f, %.1f)'']
            else if masked = AMOTION_EVENT_ACTION_UP then [LOGI ''Touch UP at (%.1f, %.1f)'']
            else if masked = AMOTION_EVENT_ACTION_MOVE then []
            else []))
     else (0, []))"

subsection \<open>The loop of \<^verbatim>\<open>android_main\<close>\<close>

text \<open>
  \<^verbatim>\<open>ALooper_pollAll\<close> returns either a negative value (nothing arrived within the
  timeout, or an error) or an identifier \<open>\<ge> 0\<close> together with the data pointer of the
  ready source, which may be null. \<^verbatim>\<open>source->process(app, source)\<close> is host code: it
  updates the \<^verbatim>\<open>android_app\<close> and calls back into \<^verbatim>\<open>app->onAppCmd\<close> (\<^verbatim>\<open>handle_cmd\<close>) and
  \<^verbatim>\<open>app->onInputEvent\<close> (\<^verbatim>\<open>handle_input\<close>). A source is therefore given by what its
  \<^verbatim>\<open>process\<close> does: the \<^verbatim>\<open>android_app\<close> fields the callbacks see, the callbacks in the
  order they are made (a command callback with EGL's answers during it), and the
  \<^verbatim>\<open>android_app\<close> fields when \<^verbatim>\<open>process\<close> returns.
\<close>

datatype callback = onAppCmd int32 egl_answers | onInputEvent AInputEvent

record source =
  app_during :: android_app
  callbacks :: "callback list"
  app_after :: android_app

datatype poll = Negative | Ready "source option"

fun dispatch :: "android_app \<Rightarrow> AppState \<Rightarrow> callback \<Rightarrow> AppState \<times> call list" where
  "dispatch app state (onAppCmd cmd egl) = handle_cmd app egl state cmd"
| "dispatch app state (onInputEvent event) = (state, snd (handle_input event))"

fun process :: "android_app \<Rightarrow> AppState \<Rightarrow> callback list \<Rightarrow> AppState \<times> call list" where
  "process app state [] = (state, [])"
| "process app state (c # cs) =
    (case dispatch app state c of
       (s1, t1) \<Rightarrow> (case process app s1 cs of (s2, t2) \<Rightarrow> (s2, t1 @ t2)))"

text \<open>
  The two nested \<^verbatim>\<open>while\<close> loops have one place where they wait: the call of
  \<^verbatim>\<open>ALooper_pollAll\<close> in the condition of the inner loop. A negative result leaves the
  inner loop, renders when \<^verbatim>\<open>has_focus\<close> holds and comes back to the poll through the
  outer loop; a result \<open>\<ge> 0\<close> runs the body of the inner loop and comes back to the poll
  unless the body returns from \<^verbatim>\<open>android_main\<close>. The loop never ends by itself, so the
  embedding runs it against the finite list of results the looper has delivered so far,
  carrying the calls made up to now: \<open>Returned\<close> when \<^verbatim>\<open>android_main\<close> has returned,
  \<open>Polling\<close> when the program is inside the next \<^verbatim>\<open>ALooper_pollAll\<close>.
\<close>

datatype outcome =
    Returned AppState "call list"
  | Polling android_app AppState "call list"

fun main_loop :: "android_app \<Rightarrow> AppState \<Rightarrow> call list \<Rightarrow> poll list \<Rightarrow> outcome" where
  "main_loop app state made [] = Polling app state made"
| "main_loop app state made (Negative # polls) =
    (case (if has_focus state then render_frame state else (state, [])) of
       (s1, t1) \<Rightarrow>
         main_loop app s1 (made @ ALooper_pollAll (if has_focus state then 0 else - 1) # t1) polls)"
| "main_loop app state made (Ready src # polls) =
    (case (case src of
             None \<Rightarrow> (app, state, [])
           | Some x \<Rightarrow>
               (case process (app_during x) state (callbacks x) of
                  (s, t) \<Rightarrow> (app_after x, s, t))) of
       (app1, s1, t1) \<Rightarrow>
         if destroyRequested app1 \<noteq> 0 then
           (case terminate_display s1 of
              (s2, t2) \<Rightarrow>
                Returned s2
                  (made @ ALooper_pollAll (if has_focus state then 0 else - 1) # t1 @
                   LOGI ''Destroy requested, exiting...'' # t2))
         else
           main_loop app1 s1 (made @ ALooper_pollAll (if has_focus state then 0 else - 1) # t1) polls)"

text \<open>\<^verbatim>\<open>AppState state = {0}\<close> followed by the three assignments of the null handles.\<close>

definition initial_state :: AppState where
  "initial_state =
    \<lparr>display = EGL_NO_DISPLAY, surface = EGL_NO_SURFACE, context = EGL_NO_CONTEXT,
     width = 0, height = 0, initialized = False, has_focus = False\<rparr>"

definition android_main :: "android_app \<Rightarrow> poll list \<Rightarrow> outcome" where
  "android_main app polls = main_loop app initial_state [LOGI ''NDKarte starting...''] polls"

subsection \<open>Observations on states and call lists\<close>

text \<open>
  A released \<^verbatim>\<open>AppState\<close>: the three handles are the null handles and
  \<^verbatim>\<open>initialized\<close> is false.
\<close>

definition released :: "AppState \<Rightarrow> bool" where
  "released s =
    (display s = EGL_NO_DISPLAY \<and> surface s = EGL_NO_SURFACE \<and> context s = EGL_NO_CONTEXT \<and>
     \<not> initialized s)"




fun is_poll :: "call \<Rightarrow> bool" where
  "is_poll (ALooper_pollAll timeout) = True"
| "is_poll other = False"

fun is_swap :: "call \<Rightarrow> bool" where
  "is_swap (eglSwapBuffers d s) = True"
| "is_swap other = False"

subsection \<open>Sequences of commands\<close>

text \<open>
  The states the commands can lead to: \<^verbatim>\<open>handle_cmd\<close> run over a list of deliveries,
  each with the \<^verbatim>\<open>android_app\<close> fields at that moment, EGL's answers during the
  callback and the command code.
\<close>

type_synonym delivery = "android_app \<times> egl_answers \<times> int32"

fun deliver :: "AppState \<Rightarrow> delivery list \<Rightarrow> AppState" where
  "deliver state [] = state"
| "deliver state ((app, egl, cmd) # ds) = deliver (fst (handle_cmd app egl state cmd)) ds"

text \<open>
  Three observations on a list of deliveries, each following the state as \<open>deliver\<close>
  does. An acquire is \<^verbatim>\<open>APP_CMD_INIT_WINDOW\<close> with a window, which calls \<^verbatim>\<open>init_display\<close>;
  it fails when \<^verbatim>\<open>init_display\<close> returns false.
  \<^item> \<open>acquire_fails\<close>: some acquire of the list fails.
  \<^item> \<open>failure_while_initialized\<close>: some acquire fails in a state whose \<^verbatim>\<open>initialized\<close>
    flag is already set.
  \<^item> \<open>failure_pending\<close>: an acquire has failed and no \<^verbatim>\<open>APP_CMD_TERM_WINDOW\<close> has
    followed it (the flag starts as given, is set by a failing acquire and cleared by
    \<^verbatim>\<open>APP_CMD_TERM_WINDOW\<close>).
\<close>

fun acquire_fails :: "AppState \<Rightarrow> delivery list \<Rightarrow> bool" where
  "acquire_fails state [] = False"
| "acquire_fails state ((app, egl, cmd) # ds) =
    ((cmd = APP_CMD_INIT_WINDOW \<and> window app \<noteq> NULL \<and> \<not> fst (init_display app egl state)) \<or>
     acquire_fails (fst (handle_cmd app egl state cmd)) ds)"

fun failure_while_initialized :: "AppState \<Rightarrow> delivery list \<Rightarrow> bool" where
  "failure_while_initialized state [] = False"
| "failure_while_initialized state ((app, egl, cmd) # ds) =
    ((cmd = APP_CMD_INIT_WINDOW \<and> window app \<noteq> NULL \<and> initialized state \<and>
      \<not> fst (init_display app egl state)) \<or>
     failure_while_initialized (fst (handle_cmd app egl state cmd)) ds)"

fun failure_pending :: "bool \<Rightarrow> AppState \<Rightarrow> delivery list \<Rightarrow> bool" where
  "failure_pending pending state [] = pending"
| "failure_pending pending state ((app, egl, cmd) # ds) =
    failure_pending
      (if cmd = APP_CMD_TERM_WINDOW then False
       else if cmd = APP_CMD_INIT_WINDOW \<and> window app \<noteq> NULL \<and>
               \<not> fst (init_display app egl state) then True
       else pending)
      (fst (handle_cmd app egl state cmd)) ds"

definition handles_set :: "AppState \<Rightarrow> bool" where
  "handles_set s =
    (display s \<noteq> EGL_NO_DISPLAY \<and> surface s \<noteq> EGL_NO_SURFACE \<and> context s \<noteq> EGL_NO_CONTEXT)"

definition handles_null :: "AppState \<Rightarrow> bool" where
  "handles_null s =
    (display s = EGL_NO_DISPLAY \<and> surface s = EGL_NO_SURFACE \<and> context s = EGL_NO_CONTEXT)"


fun calls_of :: "outcome \<Rightarrow> call list" where
  "calls_of (Returned state t) = t"
| "calls_of (Polling app state t) = t"

subsection \<open>Concrete inputs\<close>

text \<open>
  An EGL that answers every call of \<^verbatim>\<open>init_display\<close> with success, an \<^verbatim>\<open>android_app\<close>
  that has a window, and the \<^verbatim>\<open>AppState\<close> that \<^verbatim>\<open>init_display\<close> builds from the two.
\<close>

definition egl_ok :: egl_answers where
  "egl_ok =
    \<lparr>got_display = 11, initialize_ok = True, choose_config_ok = True, config = 5,
     num_configs = 1, created_surface = 12, created_context = 13, make_current_ok = True,
     queried_width = Some 1920, queried_height = Some 1200\<rparr>"

definition app_with_window :: android_app where
  "app_with_window = \<lparr>window = 7, destroyRequested = 0\<rparr>"

definition window_ready :: AppState where
  "window_ready =
    \<lparr>display = 11, surface = 12, context = 13, width = 1920, height = 1200,
     initialized = True, has_focus = False\<rparr>"

definition app_destroy_requested :: android_app where
  "app_destroy_requested = \<lparr>window = 7, destroyRequested = 1\<rparr>"

section \<open>Properties\<close>

lemmas cmd_defs = APP_CMD_INIT_WINDOW_def APP_CMD_TERM_WINDOW_def APP_CMD_GAINED_FOCUS_def
  APP_CMD_LOST_FOCUS_def APP_CMD_RESUME_def APP_CMD_PAUSE_def APP_CMD_DESTROY_def

lemmas null_defs = NULL_def EGL_NO_DISPLAY_def EGL_NO_SURFACE_def EGL_NO_CONTEXT_def

subsection \<open>\<^verbatim>\<open>render_frame\<close>\<close>

text \<open>
  C6. A call of \<^verbatim>\<open>render_frame\<close> (present) while \<^verbatim>\<open>initialized\<close> is false does nothing:
  it makes no call at all, so neither the draw nor the buffer swap happens, and the
  state is returned as it was. While \<^verbatim>\<open>initialized\<close> is true it issues the draw
  (\<^verbatim>\<open>glClearColor\<close>, \<^verbatim>\<open>glClear\<close>) and then swaps the buffers of the surface.
\<close>

theorem render_frame_gated:
  "(\<not> initialized state \<longrightarrow> render_frame state = (state, [])) \<and>
   (initialized state \<longrightarrow>
      render_frame state =
        (state, [glClearColor, glClear (GL_COLOR_BUFFER_BIT OR GL_DEPTH_BUFFER_BIT),
                 eglSwapBuffers (display state) (surface state)]))"
  by (simp add: render_frame_def)

theorem render_frame_gated_witness:
  "render_frame initial_state = (initial_state, []) \<and>
   render_frame window_ready =
     (window_ready,
      [glClearColor, glClear (GL_COLOR_BUFFER_BIT OR GL_DEPTH_BUFFER_BIT), eglSwapBuffers 11 12])"
  using render_frame_gated [of initial_state] render_frame_gated [of window_ready]
  by (simp add: initial_state_def window_ready_def)

subsection \<open>\<^verbatim>\<open>terminate_display\<close>\<close>

text \<open>
  C7. \<^verbatim>\<open>terminate_display\<close> (release) is idempotent: called on the state a first call
  returned, it returns that same state, and the only call it makes is the log line,
  so it destroys and terminates nothing. The function has no failing path.
\<close>

theorem terminate_display_idempotent:
  "terminate_display (fst (terminate_display state)) =
     (fst (terminate_display state), [LOGI ''Display terminated''])"
  by (simp add: terminate_display_def)

theorem terminate_display_idempotent_witness:
  "terminate_display (fst (terminate_display window_ready)) =
     (\<lparr>display = 0, surface = 0, context = 0, width = 1920, height = 1200,
       initialized = False, has_focus = False\<rparr>, [LOGI ''Display terminated''])"
  using terminate_display_idempotent [of window_ready]
  by (simp add: terminate_display_def window_ready_def null_defs)

text \<open>
  C10. Whatever the state before, also one that a failed \<^verbatim>\<open>init_display\<close> left partly
  built, after \<^verbatim>\<open>terminate_display\<close> the display, surface and context handles are null
  and \<^verbatim>\<open>initialized\<close> is false.
\<close>

theorem terminate_display_clears:
  "display (fst (terminate_display state)) = EGL_NO_DISPLAY \<and>
   surface (fst (terminate_display state)) = EGL_NO_SURFACE \<and>
   context (fst (terminate_display state)) = EGL_NO_CONTEXT \<and>
   \<not> initialized (fst (terminate_display state))"
  by (simp add: terminate_display_def)

theorem terminate_display_clears_witness:
  "released (fst (terminate_display
     (fst (snd (init_display app_with_window (egl_ok\<lparr>created_context := 0\<rparr>) initial_state)))))"
  using terminate_display_clears
    [of "fst (snd (init_display app_with_window (egl_ok\<lparr>created_context := 0\<rparr>) initial_state))"]
  by (simp add: released_def)

subsection \<open>\<^verbatim>\<open>handle_input\<close>\<close>

text \<open>
  C8. \<^verbatim>\<open>handle_input\<close> returns 1 (handled) exactly for the events whose type is
  \<^verbatim>\<open>AINPUT_EVENT_TYPE_MOTION\<close>, whatever their action code, and 0 (not handled) for
  every other event type.
\<close>

theorem handle_input_result:
  "(fst (handle_input event) = 1 \<longleftrightarrow> event_type event = AINPUT_EVENT_TYPE_MOTION) \<and>
   (fst (handle_input event) = 0 \<longleftrightarrow> event_type event \<noteq> AINPUT_EVENT_TYPE_MOTION)"
  by (simp add: handle_input_def Let_def)

theorem handle_input_result_witness:
  "fst (handle_input \<lparr>event_type = 2, motion_action = 0x105\<rparr>) = 1 \<and>
   fst (handle_input \<lparr>event_type = 1, motion_action = 0\<rparr>) = 0"
  using handle_input_result [of "\<lparr>event_type = 2, motion_action = 0x105\<rparr>"]
    handle_input_result [of "\<lparr>event_type = 1, motion_action = 0\<rparr>"]
  by (simp add: AINPUT_EVENT_TYPE_MOTION_def)

subsection \<open>\<^verbatim>\<open>handle_cmd\<close>\<close>

text \<open>
  C9. \<^verbatim>\<open>APP_CMD_INIT_WINDOW\<close> delivered while \<^verbatim>\<open>app->window\<close> is null does not call
  \<^verbatim>\<open>init_display\<close>: the only call made is the log line of the command, and the
  \<^verbatim>\<open>AppState\<close> is returned with every field as it was.
\<close>

theorem init_window_null_window:
  "window app = NULL \<Longrightarrow>
     handle_cmd app egl state APP_CMD_INIT_WINDOW = (state, [LOGI ''APP_CMD_INIT_WINDOW''])"
  by (simp add: handle_cmd_def)

theorem init_window_null_window_witness:
  "handle_cmd \<lparr>window = 0, destroyRequested = 0\<rparr> egl_ok initial_state APP_CMD_INIT_WINDOW =
     (initial_state, [LOGI ''APP_CMD_INIT_WINDOW''])"
  using init_window_null_window [of "\<lparr>window = 0, destroyRequested = 0\<rparr>" egl_ok initial_state]
  by (simp add: NULL_def)

subsection \<open>\<^verbatim>\<open>init_display\<close>\<close>




subsection \<open>The invariant between \<^verbatim>\<open>initialized\<close> and the handles\<close>

lemma init_display_result:
  "fst (init_display app egl state) \<Longrightarrow>
     initialized (fst (snd (init_display app egl state))) \<and>
     handles_set (fst (snd (init_display app egl state)))"
  by (auto simp add: init_display_def Let_def handles_set_def split: if_splits option.splits)

lemma init_display_failed:
  "\<not> fst (init_display app egl state) \<Longrightarrow>
     initialized (fst (snd (init_display app egl state))) = initialized state"
  by (auto simp add: init_display_def Let_def split: if_splits option.splits)

lemma handle_cmd_keeps_set:
  assumes "initialized state \<longrightarrow> handles_set state"
    and "\<not> (cmd = APP_CMD_INIT_WINDOW \<and> window app \<noteq> NULL \<and> initialized state \<and>
            \<not> fst (init_display app egl state))"
  shows "initialized (fst (handle_cmd app egl state cmd)) \<longrightarrow>
         handles_set (fst (handle_cmd app egl state cmd))"
proof (cases "cmd = APP_CMD_INIT_WINDOW")
  case True
  show ?thesis
  proof (cases "window app \<noteq> NULL")
    case False
    with True assms(1) show ?thesis by (simp add: handle_cmd_def)
  next
    case win: True
    show ?thesis
    proof (cases "fst (init_display app egl state)")
      case True
      from init_display_result [OF True] \<open>cmd = APP_CMD_INIT_WINDOW\<close> win
      show ?thesis by (simp add: handle_cmd_def case_prod_unfold)
    next
      case False
      with assms(2) \<open>cmd = APP_CMD_INIT_WINDOW\<close> win have off: "\<not> initialized state" by simp
      from init_display_failed [OF False] off \<open>cmd = APP_CMD_INIT_WINDOW\<close> win
      show ?thesis by (simp add: handle_cmd_def case_prod_unfold)
    qed
  qed
next
  case False
  with assms(1) show ?thesis
    by (simp add: handle_cmd_def terminate_display_def render_frame_def handles_set_def
        split: prod.splits)
qed

lemma deliver_keeps_set:
  "\<not> failure_while_initialized state ds \<Longrightarrow> (initialized state \<longrightarrow> handles_set state) \<Longrightarrow>
     initialized (deliver state ds) \<longrightarrow> handles_set (deliver state ds)"
proof (induction state ds rule: deliver.induct)
  case (1 state)
  then show ?case by simp
next
  case (2 state app egl cmd ds)
  from "2.prems" have "initialized (fst (handle_cmd app egl state cmd)) \<longrightarrow>
         handles_set (fst (handle_cmd app egl state cmd))"
    by (intro handle_cmd_keeps_set) simp_all
  with 2 show ?case by simp
qed

lemma handle_cmd_keeps_null:
  assumes "\<not> initialized state \<longrightarrow> handles_null state"
    and "\<not> (cmd = APP_CMD_INIT_WINDOW \<and> window app \<noteq> NULL \<and>
            \<not> fst (init_display app egl state))"
  shows "\<not> initialized (fst (handle_cmd app egl state cmd)) \<longrightarrow>
         handles_null (fst (handle_cmd app egl state cmd))"
proof (cases "cmd = APP_CMD_INIT_WINDOW")
  case True
  show ?thesis
  proof (cases "window app \<noteq> NULL")
    case False
    with True assms(1) show ?thesis by (simp add: handle_cmd_def)
  next
    case win: True
    with True assms(2) have ok: "fst (init_display app egl state)" by simp
    from init_display_result [OF ok] True win
    show ?thesis by (simp add: handle_cmd_def case_prod_unfold)
  qed
next
  case False
  with assms(1) show ?thesis
    by (simp add: handle_cmd_def terminate_display_def render_frame_def handles_null_def
        split: prod.splits)
qed

lemma term_window_nulls:
  "handles_null (fst (handle_cmd app egl state APP_CMD_TERM_WINDOW))"
  by (simp add: handle_cmd_def cmd_defs terminate_display_def handles_null_def)

lemma deliver_keeps_null:
  "\<not> failure_pending pending state ds \<Longrightarrow>
     (\<not> pending \<longrightarrow> \<not> initialized state \<longrightarrow> handles_null state) \<Longrightarrow>
     \<not> initialized (deliver state ds) \<longrightarrow> handles_null (deliver state ds)"
proof (induction ds arbitrary: pending state)
  case Nil
  then show ?case by simp
next
  case (Cons d ds)
  obtain app egl cmd where d: "d = (app, egl, cmd)" by (cases d)
  let ?fail = "cmd = APP_CMD_INIT_WINDOW \<and> window app \<noteq> NULL \<and> \<not> fst (init_display app egl state)"
  let ?p = "if cmd = APP_CMD_TERM_WINDOW then False else if ?fail then True else pending"
  let ?s = "fst (handle_cmd app egl state cmd)"
  from Cons.prems(1) d have run: "\<not> failure_pending ?p ?s ds" by simp
  have "\<not> ?p \<longrightarrow> \<not> initialized ?s \<longrightarrow> handles_null ?s"
  proof (cases "cmd = APP_CMD_TERM_WINDOW")
    case True
    then show ?thesis using term_window_nulls by simp
  next
    case False
    show ?thesis
    proof (cases ?fail)
      case True
      with False show ?thesis by simp
    next
      case nf: False
      show ?thesis
      proof (cases pending)
        case True
        with False nf show ?thesis by simp
      next
        case np: False
        with Cons.prems(2) have "\<not> initialized state \<longrightarrow> handles_null state" by simp
        from handle_cmd_keeps_null [OF this nf] show ?thesis by simp
      qed
    qed
  qed
  from Cons.IH [OF run this] d show ?case by simp
qed

lemma no_failure_not_while_initialized:
  "\<not> acquire_fails state ds \<Longrightarrow> \<not> failure_while_initialized state ds"
  by (induction state ds rule: acquire_fails.induct) auto

lemma no_failure_not_pending:
  "\<not> acquire_fails state ds \<Longrightarrow> \<not> pending \<Longrightarrow> \<not> failure_pending pending state ds"
proof (induction ds arbitrary: pending state)
  case Nil
  then show ?case by simp
next
  case (Cons d ds)
  obtain app egl cmd where d: "d = (app, egl, cmd)" by (cases d)
  from Cons.prems d have a: "\<not> acquire_fails (fst (handle_cmd app egl state cmd)) ds"
    and b: "\<not> (cmd = APP_CMD_INIT_WINDOW \<and> window app \<noteq> NULL \<and> \<not> fst (init_display app egl state))"
    by simp_all
  from b Cons.prems(2)
  have "\<not> (if cmd = APP_CMD_TERM_WINDOW then False
       else if cmd = APP_CMD_INIT_WINDOW \<and> window app \<noteq> NULL \<and>
               \<not> fst (init_display app egl state) then True
       else pending)" by auto
  from Cons.IH [OF a this] d show ?case by simp
qed

text \<open>
  C2 (as amended). In every state reached from the initial state by any sequence of
  commands:
  \<^item> \<^verbatim>\<open>initialized\<close> true implies that the display, surface and context handles are
    all non-null, provided no acquire has failed while \<^verbatim>\<open>initialized\<close> was already set;
  \<^item> \<^verbatim>\<open>initialized\<close> false implies that the three handles are all null, provided no
    acquire has failed since the last \<^verbatim>\<open>APP_CMD_TERM_WINDOW\<close> (since the start when
    there was none);
  \<^item> so both implications hold in every state reached by a sequence in which no
    acquire fails.
\<close>

theorem initialized_agrees_with_handles:
  "(\<not> failure_while_initialized initial_state ds \<longrightarrow>
      initialized (deliver initial_state ds) \<longrightarrow> handles_set (deliver initial_state ds)) \<and>
   (\<not> failure_pending False initial_state ds \<longrightarrow>
      \<not> initialized (deliver initial_state ds) \<longrightarrow> handles_null (deliver initial_state ds)) \<and>
   (\<not> acquire_fails initial_state ds \<longrightarrow>
      (initialized (deliver initial_state ds) \<longrightarrow> handles_set (deliver initial_state ds)) \<and>
      (\<not> initialized (deliver initial_state ds) \<longrightarrow> handles_null (deliver initial_state ds)))"
proof -
  have start_set: "initialized initial_state \<longrightarrow> handles_set initial_state"
    by (simp add: initial_state_def)
  have start_null: "\<not> False \<longrightarrow> \<not> initialized initial_state \<longrightarrow> handles_null initial_state"
    by (simp add: initial_state_def handles_null_def)
  have a: "initialized (deliver initial_state ds) \<longrightarrow> handles_set (deliver initial_state ds)"
    if "\<not> failure_while_initialized initial_state ds"
    using that start_set by (rule deliver_keeps_set)
  have b: "\<not> initialized (deliver initial_state ds) \<longrightarrow> handles_null (deliver initial_state ds)"
    if "\<not> failure_pending False initial_state ds"
    using that start_null by (rule deliver_keeps_null)
  have c: "\<not> failure_while_initialized initial_state ds \<and> \<not> failure_pending False initial_state ds"
    if "\<not> acquire_fails initial_state ds"
    using that no_failure_not_while_initialized no_failure_not_pending by blast
  from a b c show ?thesis by blast
qed

theorem initialized_agrees_with_handles_witness:
  "\<not> failure_while_initialized initial_state
     [(app_with_window, egl_ok\<lparr>initialize_ok := False\<rparr>, APP_CMD_INIT_WINDOW),
      (app_with_window, egl_ok, APP_CMD_INIT_WINDOW),
      (app_with_window, egl_ok, APP_CMD_GAINED_FOCUS)] \<and>
   initialized (deliver initial_state
     [(app_with_window, egl_ok\<lparr>initialize_ok := False\<rparr>, APP_CMD_INIT_WINDOW),
      (app_with_window, egl_ok, APP_CMD_INIT_WINDOW),
      (app_with_window, egl_ok, APP_CMD_GAINED_FOCUS)]) \<and>
   handles_set (deliver initial_state
     [(app_with_window, egl_ok\<lparr>initialize_ok := False\<rparr>, APP_CMD_INIT_WINDOW),
      (app_with_window, egl_ok, APP_CMD_INIT_WINDOW),
      (app_with_window, egl_ok, APP_CMD_GAINED_FOCUS)]) \<and>
   \<not> failure_pending False initial_state
     [(app_with_window, egl_ok\<lparr>make_current_ok := False\<rparr>, APP_CMD_INIT_WINDOW),
      (app_with_window, egl_ok, APP_CMD_TERM_WINDOW),
      (app_with_window, egl_ok, APP_CMD_PAUSE)] \<and>
   \<not> initialized (deliver initial_state
     [(app_with_window, egl_ok\<lparr>make_current_ok := False\<rparr>, APP_CMD_INIT_WINDOW),
      (app_with_window, egl_ok, APP_CMD_TERM_WINDOW),
      (app_with_window, egl_ok, APP_CMD_PAUSE)]) \<and>
   handles_null (deliver initial_state
     [(app_with_window, egl_ok\<lparr>make_current_ok := False\<rparr>, APP_CMD_INIT_WINDOW),
      (app_with_window, egl_ok, APP_CMD_TERM_WINDOW),
      (app_with_window, egl_ok, APP_CMD_PAUSE)]) \<and>
   \<not> acquire_fails initial_state
     [(app_with_window, egl_ok, APP_CMD_INIT_WINDOW),
      (app_with_window, egl_ok, APP_CMD_LOST_FOCUS)] \<and>
   initialized (deliver initial_state
     [(app_with_window, egl_ok, APP_CMD_INIT_WINDOW),
      (app_with_window, egl_ok, APP_CMD_LOST_FOCUS)]) \<and>
   handles_set (deliver initial_state
     [(app_with_window, egl_ok, APP_CMD_INIT_WINDOW),
      (app_with_window, egl_ok, APP_CMD_LOST_FOCUS)])"
proof -
  let ?up = "[(app_with_window, egl_ok\<lparr>initialize_ok := False\<rparr>, APP_CMD_INIT_WINDOW),
      (app_with_window, egl_ok, APP_CMD_INIT_WINDOW),
      (app_with_window, egl_ok, APP_CMD_GAINED_FOCUS)]"
  let ?down = "[(app_with_window, egl_ok\<lparr>make_current_ok := False\<rparr>, APP_CMD_INIT_WINDOW),
      (app_with_window, egl_ok, APP_CMD_TERM_WINDOW),
      (app_with_window, egl_ok, APP_CMD_PAUSE)]"
  let ?fine = "[(app_with_window, egl_ok, APP_CMD_INIT_WINDOW),
      (app_with_window, egl_ok, APP_CMD_LOST_FOCUS)]"
  note ev = handle_cmd_def init_display_def terminate_display_def render_frame_def Let_def
    egl_ok_def initial_state_def null_defs app_with_window_def cmd_defs
  have u1: "\<not> failure_while_initialized initial_state ?up" by (simp add: ev)
  have u2: "initialized (deliver initial_state ?up)" by (simp add: ev)
  have d1: "\<not> failure_pending False initial_state ?down" by (simp add: ev)
  have d2: "\<not> initialized (deliver initial_state ?down)" by (simp add: ev)
  have f1: "\<not> acquire_fails initial_state ?fine" by (simp add: ev)
  have f2: "initialized (deliver initial_state ?fine)" by (simp add: ev)
  from initialized_agrees_with_handles [of ?up] initialized_agrees_with_handles [of ?down]
    initialized_agrees_with_handles [of ?fine] u1 u2 d1 d2 f1 f2
  show ?thesis by blast
qed

text \<open>
  Both halves of the invariant as the specification states it fail. A window command
  whose \<^verbatim>\<open>eglInitialize\<close> fails leaves \<^verbatim>\<open>initialized\<close> false with the display handle set
  (a failure is pending); a second window command, delivered while \<^verbatim>\<open>initialized\<close> is
  set and failing at \<^verbatim>\<open>eglGetDisplay\<close>, leaves \<^verbatim>\<open>initialized\<close> true with a null display
  handle (a failure while initialized).
\<close>

theorem reachable_invariant_counterexample:
  "\<not> initialized (deliver initial_state
        [(app_with_window, egl_ok\<lparr>initialize_ok := False\<rparr>, APP_CMD_INIT_WINDOW)]) \<and>
   display (deliver initial_state
        [(app_with_window, egl_ok\<lparr>initialize_ok := False\<rparr>, APP_CMD_INIT_WINDOW)]) \<noteq> EGL_NO_DISPLAY \<and>
   failure_pending False initial_state
        [(app_with_window, egl_ok\<lparr>initialize_ok := False\<rparr>, APP_CMD_INIT_WINDOW)] \<and>
   initialized (deliver initial_state
      [(app_with_window, egl_ok, APP_CMD_INIT_WINDOW),
       (app_with_window, egl_ok\<lparr>got_display := 0\<rparr>, APP_CMD_INIT_WINDOW)]) \<and>
   display (deliver initial_state
      [(app_with_window, egl_ok, APP_CMD_INIT_WINDOW),
       (app_with_window, egl_ok\<lparr>got_display := 0\<rparr>, APP_CMD_INIT_WINDOW)]) = EGL_NO_DISPLAY \<and>
   failure_while_initialized initial_state
      [(app_with_window, egl_ok, APP_CMD_INIT_WINDOW),
       (app_with_window, egl_ok\<lparr>got_display := 0\<rparr>, APP_CMD_INIT_WINDOW)]"
  by (simp add: handle_cmd_def init_display_def Let_def egl_ok_def initial_state_def null_defs
      app_with_window_def cmd_defs)


subsection \<open>Focus loss\<close>

text \<open>
  C5. \<^verbatim>\<open>APP_CMD_LOST_FOCUS\<close> received while \<^verbatim>\<open>initialized\<close> holds clears \<^verbatim>\<open>has_focus\<close> and
  renders exactly one frame: the handler's calls are its log line, the draw and one
  buffer swap. In the loop, the poll that follows the command is made with timeout
  \<open>-1\<close> (blocking), and when it comes back negative no further frame is rendered.
\<close>

theorem lost_focus_forces_one_frame:
  assumes "initialized state"
  shows "handle_cmd app egl state APP_CMD_LOST_FOCUS =
           (state\<lparr>has_focus := False\<rparr>,
            [LOGI ''APP_CMD_LOST_FOCUS'', glClearColor,
             glClear (GL_COLOR_BUFFER_BIT OR GL_DEPTH_BUFFER_BIT),
             eglSwapBuffers (display state) (surface state)]) \<and>
         (callbacks x = [onAppCmd APP_CMD_LOST_FOCUS egl] \<and> destroyRequested (app_after x) = 0 \<longrightarrow>
            main_loop app0 state made [Ready (Some x), Negative] =
              Polling (app_after x) (state\<lparr>has_focus := False\<rparr>)
                (made @
                 [ALooper_pollAll (if has_focus state then 0 else - 1),
                  LOGI ''APP_CMD_LOST_FOCUS'', glClearColor,
                  glClear (GL_COLOR_BUFFER_BIT OR GL_DEPTH_BUFFER_BIT),
                  eglSwapBuffers (display state) (surface state),
                  ALooper_pollAll (- 1)]))"
proof -
  have cmd: "handle_cmd a egl state APP_CMD_LOST_FOCUS =
           (state\<lparr>has_focus := False\<rparr>,
            [LOGI ''APP_CMD_LOST_FOCUS'', glClearColor,
             glClear (GL_COLOR_BUFFER_BIT OR GL_DEPTH_BUFFER_BIT),
             eglSwapBuffers (display state) (surface state)])" for a
    using assms by (simp add: handle_cmd_def cmd_defs render_frame_def)
  then show ?thesis by simp
qed

theorem lost_focus_forces_one_frame_witness:
  "main_loop app_with_window (window_ready\<lparr>has_focus := True\<rparr>) []
     [Ready (Some \<lparr>app_during = app_with_window,
                   callbacks = [onAppCmd APP_CMD_LOST_FOCUS egl_ok],
                   app_after = app_with_window\<rparr>), Negative] =
   Polling app_with_window window_ready
     [ALooper_pollAll 0, LOGI ''APP_CMD_LOST_FOCUS'', glClearColor,
      glClear (GL_COLOR_BUFFER_BIT OR GL_DEPTH_BUFFER_BIT), eglSwapBuffers 11 12,
      ALooper_pollAll (- 1)]"
proof -
  let ?x = "\<lparr>app_during = app_with_window,
             callbacks = [onAppCmd APP_CMD_LOST_FOCUS egl_ok],
             app_after = app_with_window\<rparr>"
  have i: "initialized (window_ready\<lparr>has_focus := True\<rparr>)"
    by (simp add: window_ready_def)
  from lost_focus_forces_one_frame [OF i, of app_with_window egl_ok ?x app_with_window "[]"]
  show ?thesis
    by (simp add: window_ready_def app_with_window_def)
qed

subsection \<open>The loop\<close>

lemma main_loop_append:
  "main_loop app state made pre = Polling app1 s1 t1 \<Longrightarrow>
     main_loop app state made (pre @ post) = main_loop app1 s1 t1 post"
proof (induction pre arbitrary: app state made)
  case Nil
  then show ?case by simp
next
  case (Cons p pre)
  show ?case
  proof (cases p)
    case Negative
    with Cons.prems show ?thesis
      by (simp add: case_prod_unfold Cons.IH)
  next
    case (Ready src)
    show ?thesis
    proof (cases src)
      case None
      with Ready Cons.prems show ?thesis
        by (simp add: case_prod_unfold Cons.IH split: if_splits)
    next
      case (Some x)
      with Ready Cons.prems show ?thesis
        by (simp add: case_prod_unfold Cons.IH split: if_splits)
    qed
  qed
qed

lemma main_loop_extends:
  "\<exists>t. calls_of (main_loop app state made polls) = made @ t"
proof (induction polls arbitrary: app state made)
  case Nil
  then show ?case by simp
next
  case (Cons p polls)
  have step: "\<exists>t. calls_of (main_loop a s (made @ c # tt) polls) = made @ t" for a s c tt
  proof -
    from Cons.IH [of a s "made @ c # tt"]
    obtain u where "calls_of (main_loop a s (made @ c # tt) polls) = (made @ c # tt) @ u"
      by blast
    then have "calls_of (main_loop a s (made @ c # tt) polls) = made @ (c # tt @ u)"
      by simp
    then show ?thesis by (rule exI)
  qed
  show ?case
  proof (cases p)
    case Negative
    then show ?thesis
      by (simp only: main_loop.simps case_prod_unfold step)
  next
    case (Ready src)
    show ?thesis
    proof (cases src)
      case None
      show ?thesis
      proof (cases "destroyRequested app = 0")
        case True
        with None Ready show ?thesis by (simp add: step)
      next
        case False
        with None Ready show ?thesis by (simp add: case_prod_unfold)
      qed
    next
      case (Some x)
      show ?thesis
      proof (cases "destroyRequested (app_after x) = 0")
        case True
        with Some Ready show ?thesis by (simp add: case_prod_unfold step)
      next
        case False
        with Some Ready show ?thesis by (simp add: case_prod_unfold)
      qed
    qed
  qed
qed

text \<open>
  C4. Whenever the loop polls, in any run, it calls \<^verbatim>\<open>ALooper_pollAll\<close> with timeout 0
  (return at once) if \<^verbatim>\<open>has_focus\<close> holds at that moment and with timeout \<open>-1\<close> (wait
  until something arrives) if it does not: for every run prefix \<open>pre\<close> that leaves
  the program polling in state \<open>s1\<close> after the calls \<open>t1\<close>, the next call made is
  that poll.
\<close>

theorem poll_timeout_follows_focus:
  assumes "main_loop app state made pre = Polling app1 s1 t1"
  shows "\<exists>t2. calls_of (main_loop app state made (pre @ p # rest)) =
           t1 @ ALooper_pollAll (if has_focus s1 then 0 else - 1) # t2"
proof -
  have step: "\<exists>t2. calls_of (main_loop a s (t1 @ c # tt) rest) = t1 @ c # t2" for a s c tt
  proof -
    from main_loop_extends [of a s "t1 @ c # tt" rest]
    obtain u where "calls_of (main_loop a s (t1 @ c # tt) rest) = (t1 @ c # tt) @ u"
      by blast
    then have "calls_of (main_loop a s (t1 @ c # tt) rest) = t1 @ c # (tt @ u)"
      by simp
    then show ?thesis by (rule exI)
  qed
  have "\<exists>t2. calls_of (main_loop app1 s1 t1 (p # rest)) =
           t1 @ ALooper_pollAll (if has_focus s1 then 0 else - 1) # t2"
  proof (cases p)
    case Negative
    then show ?thesis
      by (simp only: main_loop.simps case_prod_unfold step)
  next
    case (Ready src)
    show ?thesis
    proof (cases src)
      case None
      show ?thesis
      proof (cases "destroyRequested app1 = 0")
        case True
        with None Ready show ?thesis by (simp add: step)
      next
        case False
        with None Ready show ?thesis by (simp add: case_prod_unfold)
      qed
    next
      case (Some x)
      show ?thesis
      proof (cases "destroyRequested (app_after x) = 0")
        case True
        with Some Ready show ?thesis by (simp add: case_prod_unfold step)
      next
        case False
        with Some Ready show ?thesis by (simp add: case_prod_unfold)
      qed
    qed
  qed
  with main_loop_append [OF assms, of "p # rest"] show ?thesis by simp
qed

theorem poll_timeout_follows_focus_witness:
  "(\<exists>t2. calls_of (main_loop app_with_window window_ready []
       ([] @ Negative # [])) = [] @ ALooper_pollAll (- 1) # t2) \<and>
   (\<exists>t2. calls_of (main_loop app_with_window (window_ready\<lparr>has_focus := True\<rparr>) []
       ([] @ Negative # [])) = [] @ ALooper_pollAll 0 # t2)"
proof -
  have a: "main_loop app_with_window window_ready [] [] = Polling app_with_window window_ready []"
    by simp
  have b: "main_loop app_with_window (window_ready\<lparr>has_focus := True\<rparr>) [] [] =
      Polling app_with_window (window_ready\<lparr>has_focus := True\<rparr>) []"
    by simp
  from poll_timeout_follows_focus [OF a, of Negative "[]"]
    poll_timeout_follows_focus [OF b, of Negative "[]"]
  show ?thesis by (simp add: window_ready_def)
qed

text \<open>
  C3. Once the loop sees \<^verbatim>\<open>app->destroyRequested\<close> set after a source was processed
  (for the destroy command the handler itself only logs), it logs, calls
  \<^verbatim>\<open>terminate_display\<close> exactly once and returns from \<^verbatim>\<open>android_main\<close> in that same
  iteration: the outcome is \<open>Returned\<close> whatever the looper would have delivered
  next, and the calls after the callbacks contain one release, no poll and no buffer
  swap.
\<close>

theorem destroy_request_exits:
  assumes "main_loop app state made pre = Polling app1 s1 t1"
    and "process (app_during x) s1 (callbacks x) = (s2, t2)"
    and "destroyRequested (app_after x) \<noteq> 0"
  shows "main_loop app state made (pre @ Ready (Some x) # rest) =
           Returned (fst (terminate_display s2))
             (t1 @ ALooper_pollAll (if has_focus s1 then 0 else - 1) # t2 @
              LOGI ''Destroy requested, exiting...'' # snd (terminate_display s2)) \<and>
         count_list (LOGI ''Destroy requested, exiting...'' # snd (terminate_display s2))
           (LOGI ''Display terminated'') = 1 \<and>
         \<not> list_ex is_poll (LOGI ''Destroy requested, exiting...'' # snd (terminate_display s2)) \<and>
         \<not> list_ex is_swap (LOGI ''Destroy requested, exiting...'' # snd (terminate_display s2)) \<and>
         (\<forall>egl. callbacks x = [onAppCmd APP_CMD_DESTROY egl] \<longrightarrow>
            s2 = s1 \<and> t2 = [LOGI ''APP_CMD_DESTROY''])"
proof -
  have "main_loop app state made (pre @ Ready (Some x) # rest) =
          main_loop app1 s1 t1 (Ready (Some x) # rest)"
    using assms(1) by (rule main_loop_append)
  also have "\<dots> = Returned (fst (terminate_display s2))
             (t1 @ ALooper_pollAll (if has_focus s1 then 0 else - 1) # t2 @
              LOGI ''Destroy requested, exiting...'' # snd (terminate_display s2))"
    using assms(2,3) by (simp add: case_prod_unfold)
  finally have run: "main_loop app state made (pre @ Ready (Some x) # rest) =
           Returned (fst (terminate_display s2))
             (t1 @ ALooper_pollAll (if has_focus s1 then 0 else - 1) # t2 @
              LOGI ''Destroy requested, exiting...'' # snd (terminate_display s2))" .
  have once: "count_list (LOGI ''Destroy requested, exiting...'' # snd (terminate_display s2))
           (LOGI ''Display terminated'') = 1"
    by (simp add: terminate_display_def)
  have quiet: "\<not> list_ex is_poll (LOGI ''Destroy requested, exiting...'' # snd (terminate_display s2))"
    "\<not> list_ex is_swap (LOGI ''Destroy requested, exiting...'' # snd (terminate_display s2))"
    by (simp_all add: terminate_display_def)
  have cmd: "\<forall>egl. callbacks x = [onAppCmd APP_CMD_DESTROY egl] \<longrightarrow>
            s2 = s1 \<and> t2 = [LOGI ''APP_CMD_DESTROY'']"
    using assms(2) by (auto simp add: handle_cmd_def cmd_defs)
  from run once quiet cmd show ?thesis by blast
qed

theorem destroy_request_exits_witness:
  "main_loop app_with_window window_ready []
     ([] @ Ready (Some \<lparr>app_during = app_destroy_requested,
                        callbacks = [onAppCmd APP_CMD_DESTROY egl_ok],
                        app_after = app_destroy_requested\<rparr>) # [Negative, Ready None]) =
   Returned
     \<lparr>display = 0, surface = 0, context = 0, width = 1920, height = 1200,
      initialized = False, has_focus = False\<rparr>
     [ALooper_pollAll (- 1), LOGI ''APP_CMD_DESTROY'', LOGI ''Destroy requested, exiting...'',
      eglMakeCurrent 11 0 0 0, eglDestroyContext 11 13, eglDestroySurface 11 12, eglTerminate 11,
      LOGI ''Display terminated'']"
proof -
  let ?x = "\<lparr>app_during = app_destroy_requested,
             callbacks = [onAppCmd APP_CMD_DESTROY egl_ok],
             app_after = app_destroy_requested\<rparr>"
  have a: "main_loop app_with_window window_ready [] [] = Polling app_with_window window_ready []"
    by simp
  have b: "process (app_during ?x) window_ready (callbacks ?x) = (window_ready, [LOGI ''APP_CMD_DESTROY''])"
    by (simp add: handle_cmd_def cmd_defs)
  have c: "destroyRequested (app_after ?x) \<noteq> 0"
    by (simp add: app_destroy_requested_def)
  from destroy_request_exits [OF a b c, of "[Negative, Ready None]"]
  show ?thesis
    by (simp add: terminate_display_def window_ready_def null_defs)
qed

end
